theory Spec2Isabelle
  imports Main "HOL-Library.Word" "HOL-Library.Monad_Syntax"
begin

unbundle bit_operations_syntax

section \<open>Paired counters\<close>

text \<open>
  \<^verbatim>\<open>struct paired_counter\<close> is a union of the 64-bit \<^verbatim>\<open>word_\<close> with
  \<^verbatim>\<open>struct single { uint32_t cnt2; int32_t cnt1; }\<close>. On the little-endian targets
  the library is written for (the counted pointer below keeps its counter in bits 48..63
  and reads it as the fourth 16-bit element of the word) \<^verbatim>\<open>cnt2\<close> is the low half
  and \<^verbatim>\<open>cnt1\<close> the high half of the word. A paired counter is therefore a 64-bit
  word with two views. \<^verbatim>\<open>cnt1\<close> is a signed field: its bits are a \<open>32 word\<close>
  that is read with \<open>sint\<close> wherever the source compares it.
\<close>

type_synonym paired_counter = "64 word"

text \<open>\<^verbatim>\<open>paired_counter( int32_t c1, uint32_t c2 ) : single_{ c2, c1 }\<close>\<close>

definition PC :: "32 word \<Rightarrow> 32 word \<Rightarrow> paired_counter" where
  "PC c1 c2 = push_bit 32 (ucast c1) OR ucast c2"

definition get_cnt1 :: "paired_counter \<Rightarrow> 32 word" where
  "get_cnt1 w = ucast (drop_bit 32 w)"

definition get_cnt2 :: "paired_counter \<Rightarrow> 32 word" where
  "get_cnt2 w = ucast w"

text \<open>
  \<^verbatim>\<open>operator+=\<close> and \<^verbatim>\<open>operator-=\<close> update the two fields separately; the
  \<^verbatim>\<open>const&\<close> overloads of \<^verbatim>\<open>operator+\<close> and \<^verbatim>\<open>operator-\<close> build a new
  counter from the two field results. The 32-bit additions wrap (the signed one is taken
  as two's complement wrap-around, as the hardware does it).
\<close>

definition pc_add_assign :: "paired_counter \<Rightarrow> paired_counter \<Rightarrow> paired_counter" where
  "pc_add_assign l r = PC (get_cnt1 l + get_cnt1 r) (get_cnt2 l + get_cnt2 r)"

definition pc_sub_assign :: "paired_counter \<Rightarrow> paired_counter \<Rightarrow> paired_counter" where
  "pc_sub_assign l r = PC (get_cnt1 l - get_cnt1 r) (get_cnt2 l - get_cnt2 r)"

definition pc_plus :: "paired_counter \<Rightarrow> paired_counter \<Rightarrow> paired_counter" where
  "pc_plus l r = PC (get_cnt1 l + get_cnt1 r) (get_cnt2 l + get_cnt2 r)"

definition pc_minus :: "paired_counter \<Rightarrow> paired_counter \<Rightarrow> paired_counter" where
  "pc_minus l r = PC (get_cnt1 l - get_cnt1 r) (get_cnt2 l - get_cnt2 r)"

text \<open>
  The overloads taking the right operand as a temporary,
  \<^verbatim>\<open>operator+( paired_counter&& r ) { return r += *this; }\<close> and
  \<^verbatim>\<open>operator-( paired_counter&& r ) { return r -= *this; }\<close>.
\<close>

definition pc_plus_rvalue :: "paired_counter \<Rightarrow> paired_counter \<Rightarrow> paired_counter" where
  "pc_plus_rvalue l r = pc_add_assign r l"

definition pc_minus_rvalue :: "paired_counter \<Rightarrow> paired_counter \<Rightarrow> paired_counter" where
  "pc_minus_rvalue l r = pc_sub_assign r l"

text \<open>\<^verbatim>\<open>operator==\<close> compares the words; the four orders compare both fields.\<close>

definition pc_eq :: "paired_counter \<Rightarrow> paired_counter \<Rightarrow> bool" where
  "pc_eq l r \<longleftrightarrow> l = r"

definition pc_gt :: "paired_counter \<Rightarrow> paired_counter \<Rightarrow> bool" where
  "pc_gt l r \<longleftrightarrow> sint (get_cnt1 l) > sint (get_cnt1 r) \<and> unat (get_cnt2 l) > unat (get_cnt2 r)"

definition pc_ge :: "paired_counter \<Rightarrow> paired_counter \<Rightarrow> bool" where
  "pc_ge l r \<longleftrightarrow> sint (get_cnt1 l) \<ge> sint (get_cnt1 r) \<and> unat (get_cnt2 l) \<ge> unat (get_cnt2 r)"

definition pc_lt :: "paired_counter \<Rightarrow> paired_counter \<Rightarrow> bool" where
  "pc_lt l r \<longleftrightarrow> sint (get_cnt1 l) < sint (get_cnt1 r) \<and> unat (get_cnt2 l) < unat (get_cnt2 r)"

definition pc_le :: "paired_counter \<Rightarrow> paired_counter \<Rightarrow> bool" where
  "pc_le l r \<longleftrightarrow> sint (get_cnt1 l) \<le> sint (get_cnt1 r) \<and> unat (get_cnt2 l) \<le> unat (get_cnt2 r)"



section \<open>Atomic accesses and interference\<close>

text \<open>
  Both atomics of the library wrap one \<^verbatim>\<open>std::atomic<uint64_t>\<close>. The state of such
  an object is its 64-bit word; an atomic access maps the word before it to its result and
  the word after it. A member function that makes several atomic accesses can see the
  word changed by other threads between two of them. This is modelled by an explicit
  interference: before an access, the environment either leaves the word alone
  (\<open>None\<close>) or has replaced it by a value (\<open>Some v\<close>). A weak compare-exchange can in
  addition fail spuriously. A schedule lists, for each further atomic access of a loop,
  the interference before it and whether a weak compare-exchange fails spuriously. A
  schedule is finite: after its last entry the thread runs undisturbed, which is the
  progress assumption under which the lock-free loops return.
\<close>

type_synonym schedule = "(64 word option \<times> bool) list"

definition interfere :: "64 word option \<Rightarrow> 64 word \<Rightarrow> 64 word" where
  "interfere env w = (case env of None \<Rightarrow> w | Some v \<Rightarrow> v)"

definition next_event :: "schedule \<Rightarrow> 64 word option \<times> bool" where
  "next_event sched = (case sched of [] \<Rightarrow> (None, False) | e # _ \<Rightarrow> e)"

text \<open>
  \<^verbatim>\<open>compare_exchange_strong( expected, desired )\<close> on the word \<open>cur\<close>: the result, the
  new content of \<^verbatim>\<open>expected\<close>, and the word afterwards. The full-word
  \<^verbatim>\<open>compare_exchange_*\<close> members of both atomic classes forward to these.
\<close>

definition cas_strong :: "64 word \<Rightarrow> 64 word \<Rightarrow> 64 word \<Rightarrow> bool \<times> 64 word \<times> 64 word" where
  "cas_strong expected desired cur =
     (if cur = expected then (True, expected, desired) else (False, cur, cur))"

definition cas_weak :: "bool \<Rightarrow> 64 word \<Rightarrow> 64 word \<Rightarrow> 64 word \<Rightarrow> bool \<times> 64 word \<times> 64 word" where
  "cas_weak spurious expected desired cur =
     (if cur = expected \<and> \<not> spurious then (True, expected, desired) else (False, cur, cur))"


section \<open>Atomic paired counter\<close>

text \<open>
  \<^verbatim>\<open>fetch_add\<close> and \<^verbatim>\<open>fetch_sub\<close> are \<^verbatim>\<open>counter_.fetch_add( arg.word_ )\<close> and
  \<^verbatim>\<open>counter_.fetch_sub( arg.word_ )\<close>: one 64-bit addition or subtraction of the
  packed words. They return the previous value.
\<close>

definition apc_fetch_add :: "paired_counter \<Rightarrow> 64 word \<Rightarrow> paired_counter \<times> 64 word" where
  "apc_fetch_add arg counter = (counter, counter + arg)"

definition apc_fetch_sub :: "paired_counter \<Rightarrow> 64 word \<Rightarrow> paired_counter \<times> 64 word" where
  "apc_fetch_sub arg counter = (counter, counter - arg)"


text \<open>
  The single-component compare-exchange members taking \<^verbatim>\<open>int32_t& expected\<close> or
  \<^verbatim>\<open>uint32_t& expected\<close> pass their \<^verbatim>\<open>desired\<close> component directly to the full-word
  compare-exchange, whose parameter is a \<^verbatim>\<open>paired_counter\<close>. The only conversion from
  an integer to a \<^verbatim>\<open>paired_counter\<close> is the private constructor
  \<^verbatim>\<open>paired_counter( uint64_t word )\<close> (the atomic is a friend): the component is
  converted to \<^verbatim>\<open>uint64_t\<close>, with sign extension for \<^verbatim>\<open>int32_t\<close> and zero extension
  for \<^verbatim>\<open>uint32_t\<close>, and becomes the whole word.
\<close>

definition pc_of_int32 :: "32 word \<Rightarrow> paired_counter" where
  "pc_of_int32 desired = scast desired"

definition pc_of_uint32 :: "32 word \<Rightarrow> paired_counter" where
  "pc_of_uint32 desired = ucast desired"

text \<open>
  \<^verbatim>\<open>compare_exchange_strong_c1( int32_t& expected, int32_t desired, ... )\<close> and its
  \<^verbatim>\<open>_c2\<close> twin: a load, then one strong compare-exchange. \<open>env\<close> is the interference
  between the two. The result is the returned flag, \<^verbatim>\<open>expected\<close> afterwards, and the
  counter afterwards.
\<close>

definition compare_exchange_strong_c1 ::
  "64 word option \<Rightarrow> 32 word \<Rightarrow> 32 word \<Rightarrow> 64 word \<Rightarrow> bool \<times> 32 word \<times> 64 word" where
  "compare_exchange_strong_c1 env expected desired counter =
     (let cur_pair = counter in
      if get_cnt1 cur_pair \<noteq> expected then (False, get_cnt1 cur_pair, counter)
      else (case cas_strong cur_pair (pc_of_int32 desired) (interfere env counter) of
              (ok, cur_pair', counter') \<Rightarrow> (ok, expected, counter')))"

definition compare_exchange_strong_c2 ::
  "64 word option \<Rightarrow> 32 word \<Rightarrow> 32 word \<Rightarrow> 64 word \<Rightarrow> bool \<times> 32 word \<times> 64 word" where
  "compare_exchange_strong_c2 env expected desired counter =
     (let cur_pair = counter in
      if get_cnt2 cur_pair \<noteq> expected then (False, get_cnt2 cur_pair, counter)
      else (case cas_strong cur_pair (pc_of_uint32 desired) (interfere env counter) of
              (ok, cur_pair', counter') \<Rightarrow> (ok, expected, counter')))"

text \<open>
  The loop of \<^verbatim>\<open>compare_exchange_weak_c1( int32_t& expected, int32_t desired, ... )\<close>:
  each round is one weak compare-exchange, preceded by the next event of the schedule.
\<close>

function cew_c1_loop ::
  "schedule \<Rightarrow> paired_counter \<Rightarrow> 32 word \<Rightarrow> 32 word \<Rightarrow> 64 word \<Rightarrow> bool \<times> 32 word \<times> 64 word" where
  "cew_c1_loop sched cur_pair expected desired counter =
     (case next_event sched of (env, spurious) \<Rightarrow>
      (case cas_weak spurious cur_pair (pc_of_int32 desired) (interfere env counter) of
         (ok, cur_pair', counter') \<Rightarrow>
           if ok then (True, expected, counter')
           else if get_cnt1 cur_pair' \<noteq> expected then (False, get_cnt1 cur_pair', counter')
           else cew_c1_loop (tl sched) cur_pair' expected desired counter'))"
  by pat_completeness auto
termination
  apply (relation "measure (\<lambda>(sched, cur_pair, expected, desired, counter).
                      2 * length sched + (if cur_pair = counter then 0 else 1))")
   apply simp
  apply (auto simp add: cas_weak_def next_event_def interfere_def
              split: if_splits list.splits option.splits)
  done

declare cew_c1_loop.simps [simp del]

definition compare_exchange_weak_c1 ::
  "schedule \<Rightarrow> 32 word \<Rightarrow> 32 word \<Rightarrow> 64 word \<Rightarrow> bool \<times> 32 word \<times> 64 word" where
  "compare_exchange_weak_c1 sched expected desired counter =
     (let cur_pair = counter in
      if get_cnt1 cur_pair \<noteq> expected then (False, get_cnt1 cur_pair, counter)
      else cew_c1_loop sched cur_pair expected desired counter)"

function cew_c2_loop ::
  "schedule \<Rightarrow> paired_counter \<Rightarrow> 32 word \<Rightarrow> 32 word \<Rightarrow> 64 word \<Rightarrow> bool \<times> 32 word \<times> 64 word" where
  "cew_c2_loop sched cur_pair expected desired counter =
     (case next_event sched of (env, spurious) \<Rightarrow>
      (case cas_weak spurious cur_pair (pc_of_uint32 desired) (interfere env counter) of
         (ok, cur_pair', counter') \<Rightarrow>
           if ok then (True, expected, counter')
           else if get_cnt2 cur_pair' \<noteq> expected then (False, get_cnt2 cur_pair', counter')
           else cew_c2_loop (tl sched) cur_pair' expected desired counter'))"
  by pat_completeness auto
termination
  apply (relation "measure (\<lambda>(sched, cur_pair, expected, desired, counter).
                      2 * length sched + (if cur_pair = counter then 0 else 1))")
   apply simp
  apply (auto simp add: cas_weak_def next_event_def interfere_def
              split: if_splits list.splits option.splits)
  done

declare cew_c2_loop.simps [simp del]

definition compare_exchange_weak_c2 ::
  "schedule \<Rightarrow> 32 word \<Rightarrow> 32 word \<Rightarrow> 64 word \<Rightarrow> bool \<times> 32 word \<times> 64 word" where
  "compare_exchange_weak_c2 sched expected desired counter =
     (let cur_pair = counter in
      if get_cnt2 cur_pair \<noteq> expected then (False, get_cnt2 cur_pair, counter)
      else cew_c2_loop sched cur_pair expected desired counter)"

text \<open>
  The sibling overloads taking \<^verbatim>\<open>paired_counter& expected\<close> build the desired pair
  from both components:
  \<^verbatim>\<open>compare_exchange_weak( expected, { desired, expected.get_cnt2() }, ... )\<close> and
  \<^verbatim>\<open>compare_exchange_weak( expected, { expected.get_cnt1(), desired }, ... )\<close>.
\<close>

definition compare_exchange_weak_c1_pair ::
  "bool \<Rightarrow> paired_counter \<Rightarrow> 32 word \<Rightarrow> 64 word \<Rightarrow> bool \<times> paired_counter \<times> 64 word" where
  "compare_exchange_weak_c1_pair spurious expected desired counter =
     cas_weak spurious expected (PC desired (get_cnt2 expected)) counter"

definition compare_exchange_weak_c2_pair ::
  "bool \<Rightarrow> paired_counter \<Rightarrow> 32 word \<Rightarrow> 64 word \<Rightarrow> bool \<times> paired_counter \<times> 64 word" where
  "compare_exchange_weak_c2_pair spurious expected desired counter =
     cas_weak spurious expected (PC (get_cnt1 expected) desired) counter"


section \<open>Counted pointers\<close>

text \<open>
  \<^verbatim>\<open>counted_ptr<T>\<close> is one 64-bit \<^verbatim>\<open>word_\<close>: a signed 16-bit counter in bits 48..63
  and a pointer in bits 0..47. Pointers are 64-bit addresses. \<^verbatim>\<open>make_word( T* ptr )\<close>
  asserts that the address has no bit in the counter lane; a failed assertion ends the
  program, which is the result \<open>None\<close>.
\<close>

type_synonym counted_ptr = "64 word"

definition ptr_mask :: "64 word" where
  "ptr_mask = push_bit 48 1 - 1"

definition ctr_mask :: "64 word" where
  "ctr_mask = push_bit 48 (NOT 0)"

definition make_word_ctr :: "16 word \<Rightarrow> 64 word" where
  "make_word_ctr counter = push_bit 48 (scast counter)"

definition make_word_ptr :: "64 word \<Rightarrow> 64 word option" where
  "make_word_ptr ptr = (if ptr AND ctr_mask = 0 then Some ptr else None)"

definition make_word :: "16 word \<Rightarrow> 64 word \<Rightarrow> 64 word option" where
  "make_word counter ptr = do { p \<leftarrow> make_word_ptr ptr; Some (make_word_ctr counter OR p) }"

definition get_ctr :: "counted_ptr \<Rightarrow> 16 word" where
  "get_ctr w = ucast (drop_bit 48 w)"

definition get_ptr :: "counted_ptr \<Rightarrow> 64 word" where
  "get_ptr w = w AND (push_bit 48 1 - 1)"

text \<open>\<^verbatim>\<open>set_ctr\<close> assigns the 16-bit element holding the counter and keeps the rest.\<close>

definition set_ctr :: "16 word \<Rightarrow> counted_ptr \<Rightarrow> counted_ptr" where
  "set_ctr c w = (w AND ptr_mask) OR make_word_ctr c"


section \<open>Atomic counted pointer\<close>

definition acp_fetch_add :: "16 word \<Rightarrow> 64 word \<Rightarrow> counted_ptr \<times> 64 word" where
  "acp_fetch_add arg word = (word, word + make_word_ctr arg)"

definition acp_fetch_sub :: "16 word \<Rightarrow> 64 word \<Rightarrow> counted_ptr \<times> 64 word" where
  "acp_fetch_sub arg word = (word, word - make_word_ctr arg)"

text \<open>
  The four increment and decrement operators: the returned \<^verbatim>\<open>int16_t\<close> and the word
  afterwards. The prefix forms are \<^verbatim>\<open>fetch_add( 1 ).get_ctr() + 1\<close> and
  \<^verbatim>\<open>fetch_sub( 1 ).get_ctr() - 1\<close>, converted back to 16 bits; the postfix forms
  (with the dummy \<^verbatim>\<open>int\<close> parameter) are \<^verbatim>\<open>fetch_add( 1 ).get_ctr()\<close> and
  \<^verbatim>\<open>fetch_sub( 1 ).get_ctr()\<close>.
\<close>

definition acp_pre_inc :: "64 word \<Rightarrow> 16 word \<times> 64 word" where
  "acp_pre_inc word = (case acp_fetch_add 1 word of (old, word') \<Rightarrow> (get_ctr old + 1, word'))"

definition acp_post_inc :: "64 word \<Rightarrow> 16 word \<times> 64 word" where
  "acp_post_inc word = (case acp_fetch_add 1 word of (old, word') \<Rightarrow> (get_ctr old, word'))"

definition acp_pre_dec :: "64 word \<Rightarrow> 16 word \<times> 64 word" where
  "acp_pre_dec word = (case acp_fetch_sub 1 word of (old, word') \<Rightarrow> (get_ctr old - 1, word'))"

definition acp_post_dec :: "64 word \<Rightarrow> 16 word \<times> 64 word" where
  "acp_post_dec word = (case acp_fetch_sub 1 word of (old, word') \<Rightarrow> (get_ctr old, word'))"


section \<open>Control blocks\<close>

text \<open>
  \<^verbatim>\<open>sptr_header_base<T>\<close>: the strong counter \<^verbatim>\<open>references_\<close>, the weak counter
  \<^verbatim>\<open>weak_references_\<close> and the object pointer \<^verbatim>\<open>pointer_\<close> (the record fields drop
  the trailing underscore). The two virtual hooks \<^verbatim>\<open>_delete_object\<close> and
  \<^verbatim>\<open>_delete_header\<close> are pure virtual in the base class; a call of a hook is recorded
  as an event, in call order. The hooks are taken not to touch the two counters.
\<close>

record header =
  references :: "64 word"
  weak_references :: "64 word"
  pointer :: "64 word"

datatype hook = Delete_object "64 word" | Delete_header

text \<open>
  The constructor: \<^verbatim>\<open>references_{{ 0, 1 }}, weak_references_{ 0u }, pointer_{ ptr }\<close>.
  The weak counter is initialised through the variadic constructor
  \<^verbatim>\<open>atomic_paired_counter( ARGS... args ) : counter_{ args... }\<close>, that is with the
  word 0.
\<close>

definition sptr_header_base :: "64 word \<Rightarrow> header" where
  "sptr_header_base ptr = \<lparr>references = PC 0 1, weak_references = 0, pointer = ptr\<rparr>"

definition acquire :: "header \<Rightarrow> header" where
  "acquire h = h\<lparr>references := snd (apc_fetch_add (PC 0 1) (references h))\<rparr>"

definition acquire_count :: "paired_counter \<Rightarrow> header \<Rightarrow> header" where
  "acquire_count count h = h\<lparr>references := snd (apc_fetch_add count (references h))\<rparr>"

text \<open>
  \<^verbatim>\<open>hold( int16_t count )\<close> and \<^verbatim>\<open>unhold( int16_t count )\<close> add and subtract
  \<^verbatim>\<open>{ count, 0 }\<close>; the 16-bit count is sign-extended to the \<^verbatim>\<open>int32_t\<close> parameter
  of the pair's constructor.
\<close>

definition hold :: "16 word \<Rightarrow> header \<Rightarrow> header" where
  "hold count h = h\<lparr>references := snd (apc_fetch_add (PC (scast count) 0) (references h))\<rparr>"

definition unhold :: "16 word \<Rightarrow> header \<Rightarrow> header" where
  "unhold count h = h\<lparr>references := snd (apc_fetch_sub (PC (scast count) 0) (references h))\<rparr>"

definition release :: "paired_counter \<Rightarrow> header \<Rightarrow> header \<times> hook list" where
  "release count h =
     (case apc_fetch_sub count (references h) of (old_ref, refs') \<Rightarrow>
        let h' = h\<lparr>references := refs'\<rparr> in
        if pc_eq old_ref count
        then (h', Delete_object (pointer h') #
                  (if weak_references h' = 0 then [Delete_header] else []))
        else (h', []))"

text \<open>
  The loop of \<^verbatim>\<open>weak_lock\<close>. Besides the flag it returns \<^verbatim>\<open>cur_ref\<close> as it is when
  the loop is left: the value of the counter read by the deciding access (the load or
  failed compare-exchange that saw \<open>c2 = 0\<close>, or the successful compare-exchange).
\<close>

function weak_lock_loop ::
  "schedule \<Rightarrow> paired_counter \<Rightarrow> 64 word \<Rightarrow> bool \<times> paired_counter \<times> 64 word" where
  "weak_lock_loop sched cur_ref refs =
     (if get_cnt2 cur_ref = 0 then (False, cur_ref, refs)
      else (case next_event sched of (env, spurious) \<Rightarrow>
        (case cas_weak spurious cur_ref (PC (get_cnt1 cur_ref) (get_cnt2 cur_ref + 1))
                (interfere env refs) of
           (ok, cur_ref', refs') \<Rightarrow>
             if ok then (True, cur_ref', refs')
             else weak_lock_loop (tl sched) cur_ref' refs')))"
  by pat_completeness auto
termination
  apply (relation "measure (\<lambda>(sched, cur_ref, refs).
                      2 * length sched + (if cur_ref = refs then 0 else 1))")
   apply simp
  apply (auto simp add: cas_weak_def next_event_def interfere_def
              split: if_splits list.splits option.splits)
  done

declare weak_lock_loop.simps [simp del]

definition weak_lock :: "schedule \<Rightarrow> header \<Rightarrow> bool \<times> paired_counter \<times> header" where
  "weak_lock sched h =
     (let cur_ref = references h in
      case weak_lock_loop sched cur_ref (references h) of
        (ok, seen, refs') \<Rightarrow> (ok, seen, h\<lparr>references := refs'\<rparr>))"

definition acquire_weak :: "header \<Rightarrow> header" where
  "acquire_weak h = h\<lparr>weak_references := snd (apc_fetch_add (PC 0 1) (weak_references h))\<rparr>"

definition release_weak :: "paired_counter \<Rightarrow> header \<Rightarrow> header \<times> hook list" where
  "release_weak count h =
     (case apc_fetch_sub count (weak_references h) of (old_weak, weak') \<Rightarrow>
        let h' = h\<lparr>weak_references := weak'\<rparr> in
        if pc_eq old_weak (PC 0 1) \<and> references h' = 0 then (h', [Delete_header])
        else (h', []))"

definition hdr_use_count :: "header \<Rightarrow> 32 word" where
  "hdr_use_count h = get_cnt2 (references h)"

definition hdr_weak_count :: "header \<Rightarrow> 32 word" where
  "hdr_weak_count h = get_cnt2 (weak_references h)"


section \<open>The heap of control blocks\<close>

text \<open>
  Control blocks are heap objects reached through their address. The heap maps the
  addresses of the live blocks to their state. A member call through a pointer that is
  not the address of a live block has no defined result; like a failed assertion and an
  allocation that throws \<^verbatim>\<open>std::bad_alloc\<close> it is the result \<open>None\<close>.
  Every \<^verbatim>\<open>_delete_header\<close> of the library frees the block, so a block whose
  \<^verbatim>\<open>_delete_header\<close> hook was called leaves the heap.
\<close>

type_synonym heap = "64 word \<rightharpoonup> header"

definition on_block :: "64 word \<Rightarrow> (header \<Rightarrow> header) \<Rightarrow> heap \<Rightarrow> heap option" where
  "on_block p f hp = do { h \<leftarrow> hp p; Some (hp(p \<mapsto> f h)) }"

definition on_block_hooks ::
  "64 word \<Rightarrow> (header \<Rightarrow> header \<times> hook list) \<Rightarrow> heap \<Rightarrow> (heap \<times> (64 word \<times> hook) list) option" where
  "on_block_hooks p f hp =
     do { h \<leftarrow> hp p;
          (h', hooks) \<leftarrow> Some (f h);
          Some (if Delete_header \<in> set hooks then hp(p := None) else hp(p \<mapsto> h'),
                map (Pair p) hooks) }"

text \<open>
  \<^verbatim>\<open>new sptr_header_extern{ ptr }\<close>: \<open>alloc\<close> is the address the allocator answers
  with, \<open>None\<close> when it throws.
\<close>

definition new_sptr_header_extern :: "64 word option \<Rightarrow> 64 word \<Rightarrow> heap \<Rightarrow> (64 word \<times> heap) option" where
  "new_sptr_header_extern alloc ptr hp =
     do { a \<leftarrow> alloc; Some (a, hp(a \<mapsto> sptr_header_base ptr)) }"


section \<open>Shared handles\<close>

text \<open>
  A \<^verbatim>\<open>shared_ptr<T>\<close> is its \<^verbatim>\<open>cp_header_\<close>, a counted pointer to a control block.
  \<^verbatim>\<open>explicit shared_ptr( T* ptr ) : cp_header_{ 0, ptr ? new sptr_header_extern{ ptr } : nullptr }\<close>
\<close>

definition shared_ptr_from_raw :: "64 word option \<Rightarrow> 64 word \<Rightarrow> heap \<Rightarrow> (counted_ptr \<times> heap) option" where
  "shared_ptr_from_raw alloc ptr hp =
     (if ptr \<noteq> 0
      then do { (a, hp') \<leftarrow> new_sptr_header_extern alloc ptr hp;
                cp \<leftarrow> make_word 0 a;
                Some (cp, hp') }
      else do { cp \<leftarrow> make_word 0 0; Some (cp, hp) })"

text \<open>
  The destructor and \<^verbatim>\<open>_release\<close> have the same body:
  \<^verbatim>\<open>if( cp_header_.get_ptr() ) cp_header_->release( { cp_header_.get_ctr(), 1 } )\<close>.
\<close>

definition shared_ptr_release :: "counted_ptr \<Rightarrow> heap \<Rightarrow> (heap \<times> (64 word \<times> hook) list) option" where
  "shared_ptr_release cp hp =
     (if get_ptr cp \<noteq> 0
      then on_block_hooks (get_ptr cp) (release (PC (scast (get_ctr cp)) 1)) hp
      else Some (hp, []))"

definition shared_ptr_dtor :: "counted_ptr \<Rightarrow> heap \<Rightarrow> (heap \<times> (64 word \<times> hook) list) option" where
  "shared_ptr_dtor cp hp = shared_ptr_release cp hp"

text \<open>
  \<^verbatim>\<open>reset( T* ptr )\<close>: \<^verbatim>\<open>_release()\<close>, then
  \<^verbatim>\<open>cp_header_ = { 0, ptr ? new sptr_header_extern{ ptr } : nullptr }\<close>.
  The result is the new handle, the heap and the hooks called.
\<close>

definition shared_ptr_reset_raw ::
  "64 word option \<Rightarrow> 64 word \<Rightarrow> counted_ptr \<Rightarrow> heap \<Rightarrow> (counted_ptr \<times> heap \<times> (64 word \<times> hook) list) option" where
  "shared_ptr_reset_raw alloc ptr cp hp =
     do { (hp1, hooks) \<leftarrow> shared_ptr_release cp hp;
          (cp', hp2) \<leftarrow> shared_ptr_from_raw alloc ptr hp1;
          Some (cp', hp2, hooks) }"

definition shared_ptr_get :: "counted_ptr \<Rightarrow> heap \<Rightarrow> 64 word option" where
  "shared_ptr_get cp hp =
     (if get_ptr cp \<noteq> 0 then do { h \<leftarrow> hp (get_ptr cp); Some (pointer h) } else Some 0)"

definition use_count :: "counted_ptr \<Rightarrow> heap \<Rightarrow> 32 word option" where
  "use_count cp hp =
     (if get_ptr cp \<noteq> 0 then do { h \<leftarrow> hp (get_ptr cp); Some (hdr_use_count h) } else Some 0)"

definition weak_count :: "counted_ptr \<Rightarrow> heap \<Rightarrow> 32 word option" where
  "weak_count cp hp =
     (if get_ptr cp \<noteq> 0 then do { h \<leftarrow> hp (get_ptr cp); Some (hdr_weak_count h) } else Some 0)"

definition shared_ptr_bool :: "counted_ptr \<Rightarrow> heap \<Rightarrow> bool option" where
  "shared_ptr_bool cp hp = do { n \<leftarrow> use_count cp hp; Some (n \<noteq> 0) }"


section \<open>Weak handles\<close>

text \<open>
  \<^verbatim>\<open>weak_ptr<T>::lock()\<close>. Both \<^verbatim>\<open>return {}\<close> build the default handle
  \<^verbatim>\<open>cp_header_{ 0, nullptr }\<close>; the success path builds
  \<^verbatim>\<open>shared_ptr<T>{ cp_header_.get_ptr() }\<close>, that is \<^verbatim>\<open>cp_header_{ 0, ctrl }\<close>.
  The result is the returned handle and the heap.
\<close>

definition weak_ptr_lock ::
  "schedule \<Rightarrow> counted_ptr \<Rightarrow> heap \<Rightarrow> (counted_ptr \<times> heap) option" where
  "weak_ptr_lock sched cp hp =
     (if get_ptr cp = 0 then do { r \<leftarrow> make_word 0 0; Some (r, hp) }
      else do {
        h \<leftarrow> hp (get_ptr cp);
        (ok, seen, h') \<leftarrow> Some (weak_lock sched h);
        if \<not> ok then do { r \<leftarrow> make_word 0 0; Some (r, hp(get_ptr cp \<mapsto> h')) }
        else do { r \<leftarrow> make_word 0 (get_ptr cp); Some (r, hp(get_ptr cp \<mapsto> h')) } })"


section \<open>Atomic shared cell\<close>

text \<open>
  An \<^verbatim>\<open>atomic_shared_ptr<T>\<close> is its \<^verbatim>\<open>cptr_hdr_\<close>, an atomic counted pointer; its
  state is the 64-bit word \<open>cell\<close>.

  \<^verbatim>\<open>_try_leave( cur_ctrl_ptr, count )\<close>: one strong compare-exchange from
  \<^verbatim>\<open>cur_ctrl_ptr\<close> to the same pointer with the counter reduced by \<open>count\<close>.
\<close>

definition try_leave :: "counted_ptr \<Rightarrow> 16 word \<Rightarrow> 64 word \<Rightarrow> (bool \<times> 64 word) option" where
  "try_leave cur_ctrl_ptr count cell =
     do { desired_ctrl_ptr \<leftarrow> make_word (get_ctr cur_ctrl_ptr - count) (get_ptr cur_ctrl_ptr);
          (ok, cur', cell') \<leftarrow> Some (cas_strong cur_ctrl_ptr desired_ctrl_ptr cell);
          Some (ok, cell') }"

text \<open>
  \<^verbatim>\<open>_enter\<close>, statement by statement:
  \<^verbatim>\<open>
  auto ctrl_ptr = cptr_hdr_.fetch_add( 1, order );
  ctrl_ptr.counter()++;
  if( ctrl_ptr.get_ctr() >= 1 << 14 && ctrl_ptr.get_ptr() ) {
      if( _try_leave( ctrl_ptr, ctrl_ptr.get_ctr())) {
          ctrl_ptr.set_ctr( 0 );
          ctrl_ptr->unhold( ctrl_ptr.get_ctr(), std::memory_order_relaxed );
      }
  }
  return ctrl_ptr;
  \<close>
  \<open>env\<close> is the interference on the cell between the \<^verbatim>\<open>fetch_add\<close> and the
  compare-exchange of \<^verbatim>\<open>_try_leave\<close>. The result is the returned counted pointer,
  the cell and the heap.
\<close>

definition enter :: "64 word option \<Rightarrow> 64 word \<Rightarrow> heap \<Rightarrow> (counted_ptr \<times> 64 word \<times> heap) option" where
  "enter env cell hp =
     (case acp_fetch_add 1 cell of (old, cell1) \<Rightarrow>
        let ctrl_ptr = set_ctr (get_ctr old + 1) old in
        if 2 ^ 14 \<le> sint (get_ctr ctrl_ptr) \<and> get_ptr ctrl_ptr \<noteq> 0
        then do {
          (left, cell2) \<leftarrow> try_leave ctrl_ptr (get_ctr ctrl_ptr) (interfere env cell1);
          if left
          then do {
            ctrl_ptr' \<leftarrow> Some (set_ctr 0 ctrl_ptr);
            hp' \<leftarrow> on_block (get_ptr ctrl_ptr') (unhold (get_ctr ctrl_ptr')) hp;
            Some (ctrl_ptr', cell2, hp') }
          else Some (ctrl_ptr, cell2, hp) }
        else Some (ctrl_ptr, cell1, hp))"

text \<open>
  \<^verbatim>\<open>load\<close>: the result is the returned shared handle, the cell and the heap.
\<close>

definition load :: "64 word option \<Rightarrow> 64 word \<Rightarrow> heap \<Rightarrow> (counted_ptr \<times> 64 word \<times> heap) option" where
  "load env cell hp =
     do { (cur_ctrl_ptr, cell', hp1) \<leftarrow> enter env cell hp;
          if get_ptr cur_ctrl_ptr = 0
          then do { r \<leftarrow> make_word 0 0; Some (r, cell', hp1) }
          else do {
            hp2 \<leftarrow> on_block (get_ptr cur_ctrl_ptr) (acquire_count (PC 1 1)) hp1;
            r \<leftarrow> make_word 0 (get_ptr cur_ctrl_ptr);
            Some (r, cell', hp2) } }"


section \<open>One control block and the handles that refer to it\<close>

text \<open>
  To count handles, the state of one control block is put next to the number of live
  owning references to it (shared handles and atomic cells holding its address) and the
  number of live weak handles to it, together with the hooks called so far. The steps
  are the member functions through which handles and cells reach the block:

  \<^item> copying a shared handle calls \<^verbatim>\<open>acquire()\<close>;
  \<^item> a load from a cell calls \<^verbatim>\<open>acquire( { 1, 1 } )\<close> and yields a new shared handle;
  \<^item> destroying a shared handle or a cell, and a store or compare-exchange that gives
    up a reference, call \<^verbatim>\<open>release( { ctr, 1 } )\<close>;
  \<^item> leaving a cell whose pointer changed calls \<^verbatim>\<open>release( { 1, 0 } )\<close>, and
    normalisation calls \<^verbatim>\<open>unhold\<close>; \<^verbatim>\<open>hold\<close> is its inverse;
  \<^item> constructing a weak handle from a shared or a weak handle calls
    \<^verbatim>\<open>acquire_weak()\<close>;
  \<^item> destroying or resetting a weak handle calls \<^verbatim>\<open>release_weak( { ctr, 1 } )\<close> or
    \<^verbatim>\<open>release_weak( { -ctr, 1 } )\<close>, where the counter of a weak handle is 0, as every
    constructor of \<^verbatim>\<open>weak_ptr\<close> sets it;
  \<^item> \<^verbatim>\<open>lock()\<close> on a weak handle calls \<^verbatim>\<open>weak_lock\<close> and yields a new shared handle
    when it succeeds.

  No step is taken on a block whose header has been deleted.
\<close>

record block_state =
  hdr :: header
  strong_refs :: nat
  weak_handles :: nat
  hooks_called :: "hook list"

definition new_block :: "64 word \<Rightarrow> block_state" where
  "new_block ptr = \<lparr>hdr = sptr_header_base ptr, strong_refs = 1, weak_handles = 0, hooks_called = []\<rparr>"

definition allocated :: "block_state \<Rightarrow> bool" where
  "allocated s \<longleftrightarrow> Delete_header \<notin> set (hooks_called s)"

inductive step :: "block_state \<Rightarrow> block_state \<Rightarrow> bool" where
  copy_shared:
    "allocated s \<Longrightarrow> 0 < strong_refs s \<Longrightarrow>
     step s (s\<lparr>hdr := acquire (hdr s), strong_refs := strong_refs s + 1\<rparr>)"
| cell_load:
    "allocated s \<Longrightarrow> 0 < strong_refs s \<Longrightarrow>
     step s (s\<lparr>hdr := acquire_count (PC 1 1) (hdr s), strong_refs := strong_refs s + 1\<rparr>)"
| drop_strong:
    "allocated s \<Longrightarrow> 0 < strong_refs s \<Longrightarrow> release (PC (scast (ctr :: 16 word)) 1) (hdr s) = (h', hooks) \<Longrightarrow>
     step s (s\<lparr>hdr := h', strong_refs := strong_refs s - 1,
               hooks_called := hooks_called s @ hooks\<rparr>)"
| leave_changed:
    "allocated s \<Longrightarrow> release (PC 1 0) (hdr s) = (h', hooks) \<Longrightarrow>
     step s (s\<lparr>hdr := h', hooks_called := hooks_called s @ hooks\<rparr>)"
| hold_credits:
    "allocated s \<Longrightarrow> step s (s\<lparr>hdr := hold n (hdr s)\<rparr>)"
| unhold_credits:
    "allocated s \<Longrightarrow> step s (s\<lparr>hdr := unhold n (hdr s)\<rparr>)"
| weak_from_shared:
    "allocated s \<Longrightarrow> 0 < strong_refs s \<Longrightarrow>
     step s (s\<lparr>hdr := acquire_weak (hdr s), weak_handles := weak_handles s + 1\<rparr>)"
| weak_copy:
    "allocated s \<Longrightarrow> 0 < weak_handles s \<Longrightarrow>
     step s (s\<lparr>hdr := acquire_weak (hdr s), weak_handles := weak_handles s + 1\<rparr>)"
| weak_drop:
    "allocated s \<Longrightarrow> 0 < weak_handles s \<Longrightarrow> release_weak (PC 0 1) (hdr s) = (h', hooks) \<Longrightarrow>
     step s (s\<lparr>hdr := h', weak_handles := weak_handles s - 1,
               hooks_called := hooks_called s @ hooks\<rparr>)"
| weak_promote:
    "allocated s \<Longrightarrow> 0 < weak_handles s \<Longrightarrow> weak_lock sched (hdr s) = (ok, seen, h') \<Longrightarrow>
     step s (s\<lparr>hdr := h', strong_refs := strong_refs s + (if ok then 1 else 0)\<rparr>)"

inductive reachable :: "block_state \<Rightarrow> bool" where
  construct: "reachable (new_block ptr)"
| after: "reachable s \<Longrightarrow> step s s' \<Longrightarrow> reachable s'"


section \<open>Basic facts about the packing\<close>

lemma get_cnt1_PC [simp]: "get_cnt1 (PC c1 c2) = c1"
  unfolding get_cnt1_def PC_def
  by (rule bit_word_eqI) (auto simp add: bit_simps dest: bit_imp_le_length)

lemma get_cnt2_PC [simp]: "get_cnt2 (PC c1 c2) = c2"
  unfolding get_cnt2_def PC_def
  by (rule bit_word_eqI) (auto simp add: bit_simps)

lemma PC_get_cnt [simp]: "PC (get_cnt1 w) (get_cnt2 w) = w"
  unfolding get_cnt1_def get_cnt2_def PC_def
  by (rule bit_word_eqI) (auto simp add: bit_simps)

lemma PC_eq_iff: "PC a b = PC c d \<longleftrightarrow> a = c \<and> b = d"
  by (metis get_cnt1_PC get_cnt2_PC)

lemma paired_counter_eq_iff:
  "v = w \<longleftrightarrow> get_cnt1 v = get_cnt1 w \<and> get_cnt2 v = get_cnt2 w"
  by (metis PC_get_cnt)


lemma PC_0_0: "PC 0 0 = 0"
  by (simp add: PC_def)


section \<open>Paired counter laws\<close>

text \<open>
  The laws of the \<^verbatim>\<open>const&\<close> overloads of \<^verbatim>\<open>operator+\<close> and \<^verbatim>\<open>operator-\<close>, of
  word equality and of the pointwise order: \<open>(a + b) - b == a\<close>, \<open>a + b == b + a\<close>; two
  counters are equal as words exactly when both components are equal; the order
  \<open>a > b\<close> is irreflexive, asymmetric and transitive; and it is not total: \<open>PC 1 0\<close>
  and \<open>PC 0 1\<close> are neither equal nor ordered either way.
\<close>

lemma const_ref_operator_laws:
  "pc_eq (pc_minus (pc_plus a b) b) a
   \<and> pc_eq (pc_plus a b) (pc_plus b a)
   \<and> (pc_eq a b \<longleftrightarrow> get_cnt1 a = get_cnt1 b \<and> get_cnt2 a = get_cnt2 b)
   \<and> \<not> pc_gt a a
   \<and> (pc_gt a b \<longrightarrow> \<not> pc_gt b a)
   \<and> (pc_gt a b \<and> pc_gt b c \<longrightarrow> pc_gt a c)
   \<and> (\<not> pc_lt (PC 1 0) (PC 0 1) \<and> \<not> pc_gt (PC 1 0) (PC 0 1) \<and> \<not> pc_eq (PC 1 0) (PC 0 1))"
proof -
  have "pc_eq (pc_minus (pc_plus a b) b) a"
    by (simp add: pc_eq_def pc_minus_def pc_plus_def)
  moreover have "pc_eq (pc_plus a b) (pc_plus b a)"
    by (simp add: pc_eq_def pc_plus_def add.commute)
  moreover have "pc_eq a b \<longleftrightarrow> get_cnt1 a = get_cnt1 b \<and> get_cnt2 a = get_cnt2 b"
    unfolding pc_eq_def by (rule paired_counter_eq_iff)
  moreover have "\<not> pc_gt a a"
    by (simp add: pc_gt_def)
  moreover have "pc_gt a b \<longrightarrow> \<not> pc_gt b a"
    by (simp add: pc_gt_def)
  moreover have "pc_gt a b \<and> pc_gt b c \<longrightarrow> pc_gt a c"
    by (auto simp add: pc_gt_def)
  moreover have "\<not> pc_lt (PC 1 0) (PC 0 1) \<and> \<not> pc_gt (PC 1 0) (PC 0 1) \<and> \<not> pc_eq (PC 1 0) (PC 0 1)"
    by (simp add: pc_lt_def pc_gt_def pc_eq_def PC_eq_iff)
  ultimately show ?thesis by blast
qed

lemma const_ref_operator_laws_example:
  "pc_gt (PC 2 2) (PC 1 1) \<and> pc_gt (PC 1 1) (PC 0 0) \<and> pc_gt (PC 2 2) (PC 0 0)
   \<and> \<not> pc_gt (PC 1 1) (PC 2 2)"
  using const_ref_operator_laws [of "PC 2 2" "PC 1 1" "PC 0 0"]
  by (simp add: pc_gt_def)

text \<open>
  The overload of \<^verbatim>\<open>operator+\<close> for a temporary right operand agrees with the
  \<^verbatim>\<open>const&\<close> one. The overload of \<^verbatim>\<open>operator-\<close> for a temporary right operand
  subtracts the left operand from the right one, so with it \<open>(a + b) - b\<close> is the
  component-wise negation of \<open>a\<close>.
\<close>

lemma pc_plus_rvalue_eq: "pc_plus_rvalue l r = pc_plus l r"
  by (simp add: pc_plus_rvalue_def pc_add_assign_def pc_plus_def add.commute)

lemma pc_minus_rvalue_eq: "pc_minus_rvalue l r = pc_minus r l"
  by (simp add: pc_minus_rvalue_def pc_sub_assign_def pc_minus_def)

lemma pc_minus_rvalue_cancel:
  "pc_minus_rvalue (pc_plus a b) b = PC (- get_cnt1 a) (- get_cnt2 a)"
  by (simp add: pc_minus_rvalue_def pc_sub_assign_def pc_plus_def)

text \<open>
  Claim C9: for all paired counters \<open>a\<close> and \<open>b\<close>, \<open>(a + b) - b == a\<close> (with the other
  laws shown above). The code run on \<open>a = PC 1 2\<close> and \<open>b = PC 3 4\<close>, with \<open>b\<close> passed
  to the subtraction as a temporary, which selects
  \<^verbatim>\<open>operator-( paired_counter&& r ) { return r -= *this; }\<close>: the sum is \<open>PC 4 6\<close>
  and the difference is \<open>PC 3 4 - PC 4 6 = PC (-1) (-2)\<close>, which is not equal to \<open>a\<close>.
  The \<^verbatim>\<open>const&\<close> overload on the same values gives \<open>PC 1 2\<close>.
\<close>

theorem rvalue_subtraction_failing_input:
  "pc_plus (PC 1 2) (PC 3 4) = PC 4 6
   \<and> pc_minus_rvalue (pc_plus (PC 1 2) (PC 3 4)) (PC 3 4) = PC (- 1) (- 2)
   \<and> \<not> pc_eq (pc_minus_rvalue (pc_plus (PC 1 2) (PC 3 4)) (PC 3 4)) (PC 1 2)
   \<and> pc_minus (pc_plus (PC 1 2) (PC 3 4)) (PC 3 4) = PC 1 2"
  by code_simp


section \<open>Transfer between the lanes\<close>
























section \<open>Counted pointer arithmetic\<close>

lemma get_ptr_eq_take_bit: "get_ptr w = take_bit 48 w"
proof -
  have "push_bit 48 1 - 1 = (mask 48 :: 64 word)"
    by (simp add: mask_eq_exp_minus_1)
  then show ?thesis
    by (simp only: get_ptr_def take_bit_eq_mask)
qed

lemma add_ctr_lane:
  "(w :: 64 word) + push_bit 48 x = push_bit 48 (drop_bit 48 w + x) OR take_bit 48 w"
proof -
  have "w + push_bit 48 x = (push_bit 48 (drop_bit 48 w) + take_bit 48 w) + push_bit 48 x"
    by (simp only: bits_ident)
  also have "\<dots> = push_bit 48 (drop_bit 48 w + x) + take_bit 48 w"
    by (simp add: push_bit_add)
  also have "\<dots> = push_bit 48 (drop_bit 48 w + x) OR take_bit 48 w"
    by (rule disjunctive_add) (auto simp add: bit_simps)
  finally show ?thesis .
qed

lemma sub_ctr_lane:
  "(w :: 64 word) - push_bit 48 x = push_bit 48 (drop_bit 48 w - x) OR take_bit 48 w"
  using add_ctr_lane [of w "- x"] by (simp add: push_bit_eq_mult)

lemma take_bit_lanes: "take_bit 48 (push_bit 48 y OR take_bit 48 w) = take_bit 48 (w :: 64 word)"
  by (rule bit_word_eqI) (auto simp add: bit_simps)

lemma get_ctr_lanes: "get_ctr (push_bit 48 y OR take_bit 48 w) = ucast y"
  unfolding get_ctr_def
  by (rule bit_word_eqI) (auto simp add: bit_simps)

lemma ucast_16_add: "(ucast ((a::64 word) + b) :: 16 word) = ucast a + ucast b"
proof -
  have "take_bit 16 (take_bit 64 x + take_bit 64 y) = take_bit 16 (x + y)" for x y :: int
  proof -
    have "take_bit 16 (take_bit 64 x + take_bit 64 y)
        = take_bit 16 (take_bit 64 (take_bit 64 x + take_bit 64 y))"
      by (simp add: take_bit_take_bit)
    also have "\<dots> = take_bit 16 (take_bit 64 (x + y))"
      by (simp only: take_bit_add)
    also have "\<dots> = take_bit 16 (x + y)"
      by (simp add: take_bit_take_bit)
    finally show ?thesis .
  qed
  then show ?thesis by transfer simp
qed

lemma ucast_16_diff: "(ucast ((a::64 word) - b) :: 16 word) = ucast a - ucast b"
proof -
  have "take_bit 16 (take_bit 64 x - take_bit 64 y) = take_bit 16 (x - y)" for x y :: int
  proof -
    have "take_bit 16 (take_bit 64 x - take_bit 64 y)
        = take_bit 16 (take_bit 64 (take_bit 64 x - take_bit 64 y))"
      by (simp add: take_bit_take_bit)
    also have "\<dots> = take_bit 16 (take_bit 64 (x - y))"
      by (simp only: take_bit_diff)
    also have "\<dots> = take_bit 16 (x - y)"
      by (simp add: take_bit_take_bit)
    finally show ?thesis .
  qed
  then show ?thesis by transfer simp
qed

lemma ucast_scast_16: "(ucast (scast (n :: 16 word) :: 64 word) :: 16 word) = n"
  by (rule bit_word_eqI) (auto simp add: bit_simps)

lemma get_ptr_add_ctr: "get_ptr (w + make_word_ctr n) = get_ptr w"
  by (simp only: make_word_ctr_def add_ctr_lane get_ptr_eq_take_bit take_bit_lanes)

lemma get_ptr_sub_ctr: "get_ptr (w - make_word_ctr n) = get_ptr w"
  by (simp only: make_word_ctr_def sub_ctr_lane get_ptr_eq_take_bit take_bit_lanes)

lemma get_ctr_add_ctr: "get_ctr (w + make_word_ctr n) = get_ctr w + n"
proof -
  have "get_ctr (w + make_word_ctr n) = ucast (drop_bit 48 w + scast n)"
    by (simp only: make_word_ctr_def add_ctr_lane get_ctr_lanes)
  also have "\<dots> = ucast (drop_bit 48 w) + n"
    by (simp only: ucast_16_add ucast_scast_16)
  finally show ?thesis by (simp only: get_ctr_def)
qed

lemma get_ctr_sub_ctr: "get_ctr (w - make_word_ctr n) = get_ctr w - n"
proof -
  have "get_ctr (w - make_word_ctr n) = ucast (drop_bit 48 w - scast n)"
    by (simp only: make_word_ctr_def sub_ctr_lane get_ctr_lanes)
  also have "\<dots> = ucast (drop_bit 48 w) - n"
    by (simp only: ucast_16_diff ucast_scast_16)
  finally show ?thesis by (simp only: get_ctr_def)
qed

text \<open>
  Claim C8 as stated (each of the four increment and decrement operators returns the new
  counter value) fails for the two postfix operators: on the cell \<open>(5, 0x1000)\<close>
  postfix \<^verbatim>\<open>++\<close> returns 5 while the counter becomes 6, and postfix \<^verbatim>\<open>--\<close> returns 5
  while the counter becomes 4.
\<close>

theorem postfix_operators_counterexample:
  "fst (acp_post_inc 0x0005000000001000) = 5
   \<and> get_ctr (snd (acp_post_inc 0x0005000000001000)) = 6
   \<and> fst (acp_post_inc 0x0005000000001000) \<noteq> get_ctr (snd (acp_post_inc 0x0005000000001000))
   \<and> fst (acp_post_dec 0x0005000000001000) = 5
   \<and> get_ctr (snd (acp_post_dec 0x0005000000001000)) = 4
   \<and> fst (acp_post_dec 0x0005000000001000) \<noteq> get_ctr (snd (acp_post_dec 0x0005000000001000))"
  by code_simp

text \<open>
  Claim C8, amended. \<^verbatim>\<open>fetch_add( n )\<close> and \<^verbatim>\<open>fetch_sub( n )\<close> return the previous
  word, add or subtract \<open>n\<close> modulo \<open>2^16\<close> in the counter lane and leave the 48 pointer
  bits unchanged. The prefix operators return the new counter value; the postfix
  operators return the counter value from before the update.
\<close>

theorem counted_ptr_arith:
  "fst (acp_fetch_add n w) = w
   \<and> get_ptr (snd (acp_fetch_add n w)) = get_ptr w
   \<and> get_ctr (snd (acp_fetch_add n w)) = get_ctr w + n
   \<and> fst (acp_fetch_sub n w) = w
   \<and> get_ptr (snd (acp_fetch_sub n w)) = get_ptr w
   \<and> get_ctr (snd (acp_fetch_sub n w)) = get_ctr w - n
   \<and> fst (acp_pre_inc w) = get_ctr (snd (acp_pre_inc w))
   \<and> get_ctr (snd (acp_pre_inc w)) = get_ctr w + 1
   \<and> fst (acp_pre_dec w) = get_ctr (snd (acp_pre_dec w))
   \<and> get_ctr (snd (acp_pre_dec w)) = get_ctr w - 1
   \<and> fst (acp_post_inc w) = get_ctr w \<and> get_ctr (snd (acp_post_inc w)) = get_ctr w + 1
   \<and> fst (acp_post_dec w) = get_ctr w \<and> get_ctr (snd (acp_post_dec w)) = get_ctr w - 1"
  by (simp add: acp_fetch_add_def acp_fetch_sub_def acp_pre_inc_def acp_pre_dec_def
        acp_post_inc_def acp_post_dec_def get_ptr_add_ctr get_ctr_add_ctr
        get_ptr_sub_ctr get_ctr_sub_ctr)


section \<open>Single-component compare-exchange\<close>

text \<open>
  When the target component differs from \<^verbatim>\<open>expected\<close>, all four members publish the
  observed component, return false and write nothing.
\<close>

lemma strong_c1_mismatch:
  "get_cnt1 counter \<noteq> expected \<Longrightarrow>
   compare_exchange_strong_c1 env expected desired counter = (False, get_cnt1 counter, counter)"
  by (simp add: compare_exchange_strong_c1_def)

lemma strong_c2_mismatch:
  "get_cnt2 counter \<noteq> expected \<Longrightarrow>
   compare_exchange_strong_c2 env expected desired counter = (False, get_cnt2 counter, counter)"
  by (simp add: compare_exchange_strong_c2_def)

lemma weak_c1_mismatch:
  "get_cnt1 counter \<noteq> expected \<Longrightarrow>
   compare_exchange_weak_c1 sched expected desired counter = (False, get_cnt1 counter, counter)"
  by (simp add: compare_exchange_weak_c1_def)

lemma weak_c2_mismatch:
  "get_cnt2 counter \<noteq> expected \<Longrightarrow>
   compare_exchange_weak_c2 sched expected desired counter = (False, get_cnt2 counter, counter)"
  by (simp add: compare_exchange_weak_c2_def)

lemma strong_c1_success:
  "compare_exchange_strong_c1 env expected desired counter = (True, e', counter') \<Longrightarrow>
   counter' = pc_of_int32 desired"
  by (auto simp add: compare_exchange_strong_c1_def cas_strong_def Let_def split: if_splits)

lemma strong_c2_success:
  "compare_exchange_strong_c2 env expected desired counter = (True, e', counter') \<Longrightarrow>
   counter' = pc_of_uint32 desired"
  by (auto simp add: compare_exchange_strong_c2_def cas_strong_def Let_def split: if_splits)

lemma cew_c1_loop_success:
  "cew_c1_loop sched cur_pair expected desired counter = (True, e', counter') \<Longrightarrow>
   counter' = pc_of_int32 desired"
proof (induction sched cur_pair expected desired counter rule: cew_c1_loop.induct)
  case (1 sched cur_pair expected desired counter)
  show ?case
  proof (cases "next_event sched")
    case (Pair env spurious)
    show ?thesis
    proof (cases "cas_weak spurious cur_pair (pc_of_int32 desired) (interfere env counter)")
      case (fields ok cur_pair' counter1)
      show ?thesis
      proof (cases ok)
        case True
        with "1.prems" Pair fields show ?thesis
          by (simp add: cew_c1_loop.simps [of sched] cas_weak_def split: if_splits)
      next
        case False
        with "1.prems" Pair fields "1.IH" [OF Pair [symmetric] fields [symmetric] ] show ?thesis
          by (simp add: cew_c1_loop.simps [of sched] split: if_splits)
      qed
    qed
  qed
qed

lemma cew_c2_loop_success:
  "cew_c2_loop sched cur_pair expected desired counter = (True, e', counter') \<Longrightarrow>
   counter' = pc_of_uint32 desired"
proof (induction sched cur_pair expected desired counter rule: cew_c2_loop.induct)
  case (1 sched cur_pair expected desired counter)
  show ?case
  proof (cases "next_event sched")
    case (Pair env spurious)
    show ?thesis
    proof (cases "cas_weak spurious cur_pair (pc_of_uint32 desired) (interfere env counter)")
      case (fields ok cur_pair' counter1)
      show ?thesis
      proof (cases ok)
        case True
        with "1.prems" Pair fields show ?thesis
          by (simp add: cew_c2_loop.simps [of sched] cas_weak_def split: if_splits)
      next
        case False
        with "1.prems" Pair fields "1.IH" [OF Pair [symmetric] fields [symmetric] ] show ?thesis
          by (simp add: cew_c2_loop.simps [of sched] split: if_splits)
      qed
    qed
  qed
qed


lemma weak_c1_success:
  "compare_exchange_weak_c1 sched expected desired counter = (True, e', counter') \<Longrightarrow>
   counter' = pc_of_int32 desired"
  by (auto simp add: compare_exchange_weak_c1_def Let_def split: if_splits
        dest: cew_c1_loop_success)

lemma weak_c2_success:
  "compare_exchange_weak_c2 sched expected desired counter = (True, e', counter') \<Longrightarrow>
   counter' = pc_of_uint32 desired"
  by (auto simp add: compare_exchange_weak_c2_def Let_def split: if_splits
        dest: cew_c2_loop_success)

text \<open>
  The sibling overloads taking \<^verbatim>\<open>paired_counter& expected\<close> do keep the other
  component.
\<close>

lemma pair_overloads_keep_other_lane:
  "compare_exchange_weak_c1_pair spurious expected desired counter = (True, e', counter') \<Longrightarrow>
   counter = expected \<and> counter' = PC desired (get_cnt2 counter)"
  "compare_exchange_weak_c2_pair spurious expected desired counter = (True, e', counter') \<Longrightarrow>
   counter = expected \<and> counter' = PC (get_cnt1 counter) desired"
  by (auto simp add: compare_exchange_weak_c1_pair_def compare_exchange_weak_c2_pair_def
        cas_weak_def split: if_splits)

text \<open>
  Claim C6: when a single-component compare-exchange returns true, the target component
  has been set to \<^verbatim>\<open>desired\<close> and the other component is left unchanged. The code run
  on the counter \<open>PC 5 7\<close>, undisturbed: the \<^verbatim>\<open>_c1\<close> members with expected 5 and
  desired 9 return true and leave \<open>PC 0 9\<close> where the claim has \<open>PC 9 7\<close>; the
  \<^verbatim>\<open>_c2\<close> members with expected 7 and desired 9 return true and leave \<open>PC 0 9\<close>
  where the claim has \<open>PC 5 9\<close>. By the success lemmas above the whole word always
  becomes the extended \<^verbatim>\<open>desired\<close> component.
\<close>

theorem single_component_cas_failing_input:
  "compare_exchange_strong_c1 None 5 9 (PC 5 7) = (True, 5, PC 0 9)
   \<and> compare_exchange_weak_c1 [] 5 9 (PC 5 7) = (True, 5, PC 0 9)
   \<and> compare_exchange_strong_c2 None 7 9 (PC 5 7) = (True, 7, PC 0 9)
   \<and> compare_exchange_weak_c2 [] 7 9 (PC 5 7) = (True, 7, PC 0 9)"
  by code_simp


section \<open>Releasing a strong reference\<close>

text \<open>
  Claim C3. \<open>release count\<close> subtracts \<open>count\<close> from the strong counter. It calls the
  object hook exactly when the counter was equal to \<open>count\<close> before, which is exactly
  when it is \<open>PC 0 0\<close> afterwards; in that case it calls the header hook next, exactly
  when the weak counter is \<open>PC 0 0\<close>; otherwise it calls no hook. The weak counter and
  the object pointer are not changed.
\<close>

theorem release_spec:
  "release count h = (h', hooks) \<Longrightarrow>
     references h' = references h - count
   \<and> weak_references h' = weak_references h \<and> pointer h' = pointer h
   \<and> (references h = count \<longleftrightarrow> references h' = PC 0 0)
   \<and> (Delete_object (pointer h) \<in> set hooks \<longleftrightarrow> references h = count)
   \<and> (Delete_header \<in> set hooks \<longleftrightarrow> references h = count \<and> weak_references h = PC 0 0)
   \<and> (references h = count \<longrightarrow>
        hooks = Delete_object (pointer h) # (if weak_references h = PC 0 0 then [Delete_header] else []))
   \<and> (references h \<noteq> count \<longrightarrow> hooks = [])"
  by (auto simp add: release_def apc_fetch_sub_def pc_eq_def PC_0_0 Let_def split: if_splits)

theorem release_spec_witness:
  "release (PC 0 1) (sptr_header_base 0x2000)
     = (\<lparr>references = 0, weak_references = 0, pointer = 0x2000\<rparr>,
        [Delete_object 0x2000, Delete_header])"
  using release_spec [of "PC 0 1" "sptr_header_base 0x2000"
      "fst (release (PC 0 1) (sptr_header_base 0x2000))"
      "snd (release (PC 0 1) (sptr_header_base 0x2000))"]
  by (simp add: sptr_header_base_def PC_0_0 prod_eq_iff)


section \<open>Promotion of a weak handle\<close>

text \<open>
  The loop of \<^verbatim>\<open>weak_lock\<close> decides on the value \<open>seen\<close> that the strong counter
  held at its last access: it succeeds exactly when the \<open>c2\<close> component of that value is
  not zero, and then has replaced it by the same pair with \<open>c2 + 1\<close>; when it fails it
  has written nothing. \<open>seen\<close> is the initial value or one written by another thread.
\<close>

lemma weak_lock_loop_spec:
  "weak_lock_loop sched cur_ref refs = (ok, seen, refs') \<Longrightarrow>
     (ok \<longleftrightarrow> get_cnt2 seen \<noteq> 0)
   \<and> (ok \<longrightarrow> refs' = PC (get_cnt1 seen) (get_cnt2 seen + 1))
   \<and> (\<not> ok \<longrightarrow> (seen = cur_ref \<and> refs' = refs) \<or> refs' = seen)
   \<and> (seen = cur_ref \<or> seen = refs \<or> Some seen \<in> fst ` set sched)"
proof (induction sched cur_ref refs rule: weak_lock_loop.induct)
  case (1 sched cur_ref refs)
  show ?case
  proof (cases "get_cnt2 cur_ref = 0")
    case True
    with "1.prems" show ?thesis
      by (simp add: weak_lock_loop.simps [of sched cur_ref])
  next
    case nz: False
    obtain env spurious where ev: "next_event sched = (env, spurious)"
      by (cases "next_event sched")
    obtain ok1 cur1 refs1 where cas:
      "cas_weak spurious cur_ref (PC (get_cnt1 cur_ref) (get_cnt2 cur_ref + 1)) (interfere env refs)
         = (ok1, cur1, refs1)"
      by (cases "cas_weak spurious cur_ref (PC (get_cnt1 cur_ref) (get_cnt2 cur_ref + 1)) (interfere env refs)")
    show ?thesis
    proof (cases ok1)
      case True
      with "1.prems" nz ev cas show ?thesis
        by (auto simp add: weak_lock_loop.simps [of sched cur_ref] cas_weak_def split: if_splits)
    next
      case False
      with "1.prems" nz ev cas have rec: "weak_lock_loop (tl sched) cur1 refs1 = (ok, seen, refs')"
        by (simp add: weak_lock_loop.simps [of sched cur_ref])
      from cas False have same: "cur1 = refs1" "refs1 = interfere env refs"
        by (auto simp add: cas_weak_def split: if_splits)
      have src: "interfere env refs = refs \<or> Some (interfere env refs) \<in> fst ` set sched"
        using ev by (cases sched; cases env) (auto simp add: next_event_def interfere_def image_iff)
      have tl: "fst ` set (tl sched) \<subseteq> fst ` set sched"
        by (cases sched) auto
      from "1.IH" [OF nz ev [symmetric] cas [symmetric] refl False rec] same src tl
      show ?thesis by auto
    qed
  qed
qed

lemma weak_lock_loop_undisturbed:
  "weak_lock_loop [] cur_ref cur_ref =
     (if get_cnt2 cur_ref = 0 then (False, cur_ref, cur_ref)
      else (True, cur_ref, PC (get_cnt1 cur_ref) (get_cnt2 cur_ref + 1)))"
  by (simp add: weak_lock_loop.simps [of "[]" cur_ref] next_event_def interfere_def cas_weak_def)

lemma weak_lock_spec:
  assumes "weak_lock sched h = (ok, seen, h')"
  shows "(ok \<longleftrightarrow> get_cnt2 seen \<noteq> 0)
   \<and> (ok \<longrightarrow> references h' = PC (get_cnt1 seen) (get_cnt2 seen + 1))
   \<and> (\<not> ok \<longrightarrow> references h' = seen)
   \<and> (seen = references h \<or> Some seen \<in> fst ` set sched)
   \<and> weak_references h' = weak_references h \<and> pointer h' = pointer h"
proof -
  obtain refs' where loop: "weak_lock_loop sched (references h) (references h) = (ok, seen, refs')"
    and h': "h' = h\<lparr>references := refs'\<rparr>"
    using assms by (auto simp add: weak_lock_def Let_def split: prod.splits)
  from weak_lock_loop_spec [OF loop] h' show ?thesis by auto
qed

text \<open>Counted pointers built from a masked pointer and the counter 0.\<close>

lemma get_ptr_fits: "get_ptr w AND ctr_mask = 0"
  unfolding get_ptr_eq_take_bit ctr_mask_def
  by (rule bit_word_eqI) (auto simp add: bit_simps)

lemma make_word_0_get_ptr: "make_word 0 (get_ptr w) = Some (get_ptr w)"
  by (simp add: make_word_def make_word_ptr_def get_ptr_fits make_word_ctr_def)

lemma make_word_0_0: "make_word 0 0 = Some 0"
  by (simp add: make_word_def make_word_ptr_def make_word_ctr_def)

lemma get_ptr_idem: "get_ptr (get_ptr w) = get_ptr w"
  by (simp add: get_ptr_eq_take_bit)

lemma get_ctr_get_ptr: "get_ctr (get_ptr w) = 0"
  unfolding get_ptr_eq_take_bit get_ctr_def
  by (rule bit_word_eqI) (auto simp add: bit_simps)

lemma weak_ptr_lock_null: "get_ptr wp = 0 \<Longrightarrow> weak_ptr_lock sched wp hp = Some (0, hp)"
  by (simp add: weak_ptr_lock_def make_word_0_0)


text \<open>
  Claim C4. \<^verbatim>\<open>weak_lock\<close>, and \<^verbatim>\<open>lock()\<close> on a non-null weak handle to a live
  block, succeed if and only if \<open>strong.c2 > 0\<close> in the value \<open>seen\<close> the decision is
  taken on. On success \<open>c2\<close> is incremented by one, \<open>c1\<close> is unchanged and \<^verbatim>\<open>lock()\<close>
  returns the handle \<open>(0, p)\<close> to the block; on failure the strong counter is left as
  seen and \<^verbatim>\<open>lock()\<close> returns the null handle. The weak counter and the object pointer
  are never changed.
\<close>

theorem weak_promotion:
  assumes "get_ptr wp \<noteq> 0" and "hp (get_ptr wp) = Some h"
    and "weak_lock sched h = (ok, seen, h')"
  shows "(ok \<longleftrightarrow> 0 < unat (get_cnt2 seen))
   \<and> (seen = references h \<or> Some seen \<in> fst ` set sched)
   \<and> weak_references h' = weak_references h \<and> pointer h' = pointer h
   \<and> (ok \<longrightarrow> get_cnt2 (references h') = get_cnt2 seen + 1
            \<and> get_cnt1 (references h') = get_cnt1 seen
            \<and> weak_ptr_lock sched wp hp = Some (get_ptr wp, hp(get_ptr wp \<mapsto> h'))
            \<and> get_ptr (get_ptr wp) = get_ptr wp \<and> get_ctr (get_ptr wp) = 0)
   \<and> (\<not> ok \<longrightarrow> references h' = seen
            \<and> weak_ptr_lock sched wp hp = Some (0, hp(get_ptr wp \<mapsto> h')))"
proof -
  note spec = weak_lock_spec [OF assms(3)]
  have nz: "get_cnt2 seen \<noteq> 0 \<longleftrightarrow> 0 < unat (get_cnt2 seen)"
    by (simp add: unat_gt_0)
  have lock_ok: "weak_ptr_lock sched wp hp = Some (get_ptr wp, hp(get_ptr wp \<mapsto> h'))" if ok
    using that assms by (simp add: weak_ptr_lock_def make_word_0_get_ptr)
  have lock_fail: "weak_ptr_lock sched wp hp = Some (0, hp(get_ptr wp \<mapsto> h'))" if "\<not> ok"
    using that assms by (simp add: weak_ptr_lock_def make_word_0_0)
  from spec nz lock_ok lock_fail show ?thesis
    by (auto simp add: get_ptr_idem get_ctr_get_ptr)
qed

theorem weak_promotion_witness:
  "weak_lock [(Some (PC 3 4), False)] (sptr_header_base 0x2000)
      = (True, PC 3 4, \<lparr>references = PC 3 5, weak_references = 0, pointer = 0x2000\<rparr>)
   \<and> weak_ptr_lock [(Some (PC 3 4), False)] 0x1000 [0x1000 \<mapsto> sptr_header_base 0x2000]
      = Some (0x1000, [0x1000 \<mapsto> \<lparr>references = PC 3 5, weak_references = 0, pointer = 0x2000\<rparr>])
   \<and> weak_lock [(Some (PC 3 0), False)] (sptr_header_base 0x2000)
      = (False, PC 3 0, \<lparr>references = PC 3 0, weak_references = 0, pointer = 0x2000\<rparr>)
   \<and> weak_ptr_lock [(Some (PC 3 0), False)] 0x1000 [0x1000 \<mapsto> sptr_header_base 0x2000]
      = Some (0, [0x1000 \<mapsto> \<lparr>references = PC 3 0, weak_references = 0, pointer = 0x2000\<rparr>])"
proof -
  have p: "get_ptr 0x1000 = 0x1000" by code_simp
  have w1: "weak_lock [(Some (PC 3 4), False)] (sptr_header_base 0x2000)
      = (True, PC 3 4, \<lparr>references = PC 3 5, weak_references = 0, pointer = 0x2000\<rparr>)"
    by code_simp
  have w2: "weak_lock [(Some (PC 3 0), False)] (sptr_header_base 0x2000)
      = (False, PC 3 0, \<lparr>references = PC 3 0, weak_references = 0, pointer = 0x2000\<rparr>)"
    by code_simp
  from weak_promotion [of "0x1000" "[0x1000 \<mapsto> sptr_header_base 0x2000]" "sptr_header_base 0x2000", OF _ _ w1]
    weak_promotion [of "0x1000" "[0x1000 \<mapsto> sptr_header_base 0x2000]" "sptr_header_base 0x2000", OF _ _ w2]
    w1 w2 p
  show ?thesis by simp
qed


section \<open>The weak counter counts the weak handles\<close>

lemma PC_0_1: "PC 0 1 = 1"
  by (simp add: PC_def)

lemma release_keeps_weak:
  "release count h = (h', hooks) \<Longrightarrow> weak_references h' = weak_references h"
  by (auto simp add: release_def apc_fetch_sub_def Let_def split: if_splits)

lemma weak_lock_keeps_weak:
  "weak_lock sched h = (ok, seen, h') \<Longrightarrow> weak_references h' = weak_references h"
  by (auto simp add: weak_lock_def Let_def split: prod.splits)

lemma step_weak_count:
  assumes "step s s'" and "weak_references (hdr s) = of_nat (weak_handles s)"
  shows "weak_references (hdr s') = of_nat (weak_handles s')"
  using assms
proof (cases rule: step.cases)
  case (weak_drop h' hooks)
  then have "weak_references h' = weak_references (hdr s) - 1"
    by (auto simp add: release_weak_def apc_fetch_sub_def PC_0_1 Let_def split: if_splits)
  with weak_drop assms(2) show ?thesis
    by (cases "weak_handles s") simp_all
qed (auto simp add: acquire_def acquire_count_def hold_def unhold_def acquire_weak_def
       apc_fetch_add_def PC_0_1 dest: release_keeps_weak weak_lock_keeps_weak)

lemma reachable_weak_count:
  "reachable s \<Longrightarrow> weak_references (hdr s) = of_nat (weak_handles s)"
proof (induction rule: reachable.induct)
  case (construct ptr)
  show ?case by (simp add: new_block_def sptr_header_base_def)
next
  case (after s s')
  then show ?case by (simp add: step_weak_count)
qed

lemma get_cnt2_of_nat: "get_cnt2 (of_nat n) = of_nat n"
  unfolding get_cnt2_def by transfer (simp add: take_bit_of_nat take_bit_take_bit)

lemma get_cnt1_of_small:
  assumes "n < 2 ^ 32"
  shows "get_cnt1 (of_nat n) = 0"
proof -
  have "\<not> bit n (k + 32)" for k
  proof -
    have "(2::nat) ^ 32 \<le> 2 ^ (k + 32)"
      by (rule power_increasing) simp_all
    with assms have "n < 2 ^ (k + 32)"
      by (rule less_le_trans)
    then show ?thesis by (simp add: bit_iff_odd)
  qed
  then have "drop_bit 32 (of_nat n :: 64 word) = 0"
    by (intro bit_word_eqI) (simp add: bit_simps add.commute)
  then show ?thesis by (simp add: get_cnt1_def)
qed

text \<open>
  Claim C7 as stated (while a strong reference exists, the \<open>c2\<close> component of the weak
  counter is the number of live weak handles plus one) fails: a block is constructed with
  the weak counter 0, and right after construction there is one strong reference, no
  weak handle, and the weak count is 0, not 1.
\<close>

theorem implicit_weak_reference_counterexample:
  "reachable (new_block 0x2000)
   \<and> strong_refs (new_block 0x2000) = 1
   \<and> weak_handles (new_block 0x2000) = 0
   \<and> unat (hdr_weak_count (hdr (new_block 0x2000))) = 0
   \<and> unat (hdr_weak_count (hdr (new_block 0x2000))) \<noteq> weak_handles (new_block 0x2000) + 1"
proof -
  have r: "reachable (new_block 0x2000)"
    by (rule construct)
  have "strong_refs (new_block 0x2000) = 1
   \<and> weak_handles (new_block 0x2000) = 0
   \<and> unat (hdr_weak_count (hdr (new_block 0x2000))) = 0
   \<and> unat (hdr_weak_count (hdr (new_block 0x2000))) \<noteq> weak_handles (new_block 0x2000) + 1"
    by (simp add: new_block_def sptr_header_base_def hdr_weak_count_def get_cnt2_def)
  with r show ?thesis by blast
qed


text \<open>
  Claim C7, amended. In every reachable state of a control block the weak counter is the
  number of live weak handles, with no implicit extra reference: the packed word equals
  that number, so its \<open>c2\<close> component is the number modulo \<open>2^32\<close>, and below \<open>2^32\<close>
  handles \<open>weak_count\<close> is the number itself and \<open>c1\<close> is 0. This holds at construction
  and is preserved by every step.
\<close>

theorem weak_count_counts_weak_handles:
  "reachable s \<Longrightarrow>
     weak_references (hdr s) = of_nat (weak_handles s)
   \<and> hdr_weak_count (hdr s) = of_nat (weak_handles s)
   \<and> (weak_handles s < 2 ^ 32 \<longrightarrow>
        unat (hdr_weak_count (hdr s)) = weak_handles s \<and> get_cnt1 (weak_references (hdr s)) = 0)"
proof -
  assume "reachable s"
  then have w: "weak_references (hdr s) = of_nat (weak_handles s)"
    by (rule reachable_weak_count)
  then have c: "hdr_weak_count (hdr s) = of_nat (weak_handles s)"
    by (simp add: hdr_weak_count_def get_cnt2_of_nat)
  have "unat (hdr_weak_count (hdr s)) = weak_handles s" if "weak_handles s < 2 ^ 32"
    using that c by (simp add: unat_of_nat)
  with w c show ?thesis by (simp add: get_cnt1_of_small)
qed

theorem weak_count_witness:
  "reachable \<lparr>hdr = \<lparr>references = PC 0 1, weak_references = 1, pointer = 0x2000\<rparr>,
            strong_refs = 1, weak_handles = 1, hooks_called = []\<rparr>
   \<and> unat (hdr_weak_count \<lparr>references = PC 0 1, weak_references = 1, pointer = 0x2000\<rparr>) = 1"
proof -
  have "step (new_block 0x2000)
          ((new_block 0x2000)\<lparr>hdr := acquire_weak (hdr (new_block 0x2000)),
                              weak_handles := weak_handles (new_block 0x2000) + 1\<rparr>)"
    by (rule weak_from_shared) (simp_all add: allocated_def new_block_def)
  then have "step (new_block 0x2000)
          \<lparr>hdr = \<lparr>references = PC 0 1, weak_references = 1, pointer = 0x2000\<rparr>,
            strong_refs = 1, weak_handles = 1, hooks_called = []\<rparr>"
    by (simp add: new_block_def sptr_header_base_def acquire_weak_def apc_fetch_add_def PC_0_1)
  with construct have r: "reachable \<lparr>hdr = \<lparr>references = PC 0 1, weak_references = 1, pointer = 0x2000\<rparr>,
            strong_refs = 1, weak_handles = 1, hooks_called = []\<rparr>"
    by (rule after)
  from weak_count_counts_weak_handles [OF r] r show ?thesis by simp
qed


section \<open>Null shared handles\<close>

lemma get_ptr_0: "get_ptr 0 = 0" by (simp add: get_ptr_def)
lemma get_ctr_0: "get_ctr 0 = 0" by (simp add: get_ctr_def)

lemma on_block_hooks_dom:
  "on_block_hooks p f hp = Some (hp', hooks) \<Longrightarrow> dom hp' \<subseteq> dom hp"
  by (auto simp add: on_block_hooks_def split: bind_splits prod.splits if_splits)

lemma shared_ptr_release_dom:
  "shared_ptr_release cp hp = Some (hp', hooks) \<Longrightarrow> dom hp' \<subseteq> dom hp"
  by (auto simp add: shared_ptr_release_def split: if_splits dest: on_block_hooks_dom)

text \<open>
  Claim C10. Constructing a shared handle from a null raw pointer yields the null handle
  and leaves the heap as it is, whatever the allocator would answer. \<^verbatim>\<open>reset\<close> with a
  null raw pointer releases the old reference and yields the null handle; the heap is the
  one the release left, with no new block. On the null handle \<^verbatim>\<open>get()\<close> is null,
  \<^verbatim>\<open>use_count()\<close> and \<^verbatim>\<open>weak_count()\<close> are 0, the boolean conversion is false, and
  the destructor changes no block and calls no hook.
\<close>

theorem null_handle:
  "shared_ptr_from_raw alloc 0 hp = Some (0, hp)
   \<and> (shared_ptr_reset_raw alloc 0 cp hp = Some (cp', hp', hooks) \<longrightarrow>
        cp' = 0 \<and> shared_ptr_release cp hp = Some (hp', hooks) \<and> dom hp' \<subseteq> dom hp)
   \<and> (shared_ptr_release cp hp = Some (hp', hooks) \<longrightarrow>
        shared_ptr_reset_raw alloc 0 cp hp = Some (0, hp', hooks))
   \<and> shared_ptr_get 0 hp = Some 0
   \<and> use_count 0 hp = Some 0
   \<and> weak_count 0 hp = Some 0
   \<and> shared_ptr_bool 0 hp = Some False
   \<and> shared_ptr_dtor 0 hp = Some (hp, [])"
proof -
  have ctor: "shared_ptr_from_raw alloc 0 hp = Some (0, hp)" for hp
    by (simp add: shared_ptr_from_raw_def make_word_def make_word_ptr_def make_word_ctr_def)
  have reset: "shared_ptr_reset_raw alloc 0 cp hp
      = (case shared_ptr_release cp hp of None \<Rightarrow> None | Some (hp1, hooks) \<Rightarrow> Some (0, hp1, hooks))"
    by (simp add: shared_ptr_reset_raw_def ctor split: option.splits)
  show ?thesis
    using shared_ptr_release_dom [of cp hp hp' hooks]
    by (auto simp add: ctor reset shared_ptr_get_def use_count_def weak_count_def
          shared_ptr_bool_def shared_ptr_dtor_def shared_ptr_release_def get_ptr_0
          split: option.splits)
qed

theorem null_handle_witness:
  "shared_ptr_release 0x1000 [0x1000 \<mapsto> sptr_header_base 0x2000]
     = Some (Map.empty, [(0x1000, Delete_object 0x2000), (0x1000, Delete_header)])
   \<and> shared_ptr_reset_raw None 0 0x1000 [0x1000 \<mapsto> sptr_header_base 0x2000]
     = Some (0, Map.empty, [(0x1000, Delete_object 0x2000), (0x1000, Delete_header)])"
proof -
  have p: "get_ptr 0x1000 = 0x1000" "get_ctr 0x1000 = 0" by code_simp+
  have r: "release (PC 0 1) (sptr_header_base 0x2000)
     = (\<lparr>references = 0, weak_references = 0, pointer = 0x2000\<rparr>, [Delete_object 0x2000, Delete_header])"
    by (simp add: release_def sptr_header_base_def apc_fetch_sub_def pc_eq_def)
  have rel: "shared_ptr_release 0x1000 [0x1000 \<mapsto> sptr_header_base 0x2000]
     = Some (Map.empty, [(0x1000, Delete_object 0x2000), (0x1000, Delete_header)])"
    by (simp add: shared_ptr_release_def p on_block_hooks_def r)
  from null_handle [of None "[0x1000 \<mapsto> sptr_header_base 0x2000]" "0x1000" 0 Map.empty
      "[(0x1000, Delete_object 0x2000), (0x1000, Delete_header)]"] rel
  show ?thesis by simp
qed


section \<open>Entering a cell and loading from it\<close>

lemma ptr_mask_eq: "ptr_mask = mask 48"
  by (simp add: ptr_mask_def mask_eq_exp_minus_1)

lemma bit_get_ptr: "bit (get_ptr w) n \<longleftrightarrow> n < 48 \<and> bit w n"
  by (simp add: get_ptr_eq_take_bit bit_simps)

lemma bit_get_ctr: "bit (get_ctr w) n \<longleftrightarrow> n < 16 \<and> bit w (n + 48)"
  by (auto simp add: get_ctr_def bit_simps add.commute)

lemma counted_ptr_eqI:
  assumes "get_ptr v = get_ptr w" and "get_ctr v = get_ctr w"
  shows "v = w"
proof (rule bit_word_eqI)
  fix n assume n: "n < LENGTH(64)"
  show "bit v n = bit w n"
  proof (cases "n < 48")
    case True
    with assms(1) bit_get_ptr [of v n] bit_get_ptr [of w n] show ?thesis by simp
  next
    case False
    with n have "n - 48 < 16" "n - 48 + 48 = n" by simp_all
    with assms(2) bit_get_ctr [of v "n - 48"] bit_get_ctr [of w "n - 48"] show ?thesis by simp
  qed
qed

lemma get_ptr_set_ctr: "get_ptr (set_ctr c w) = get_ptr w"
  unfolding set_ctr_def make_word_ctr_def ptr_mask_eq get_ptr_eq_take_bit
  by (rule bit_word_eqI) (auto simp add: bit_simps)

lemma get_ctr_set_ctr: "get_ctr (set_ctr c w) = c"
  unfolding set_ctr_def make_word_ctr_def ptr_mask_eq get_ctr_def
  by (rule bit_word_eqI) (auto simp add: bit_simps)

lemma set_ctr_0: "set_ctr 0 w = get_ptr w"
  by (rule counted_ptr_eqI) (simp_all add: get_ptr_set_ctr get_ctr_set_ctr get_ptr_idem get_ctr_get_ptr)

lemma counter_increment: "set_ctr (get_ctr w + 1) w = w + make_word_ctr 1"
  by (rule counted_ptr_eqI)
    (simp_all add: get_ptr_set_ctr get_ctr_set_ctr get_ptr_add_ctr get_ctr_add_ctr)

lemma unhold_0: "unhold 0 h = h"
  by (simp add: unhold_def apc_fetch_sub_def PC_0_0)

lemma try_leave_all:
  "count = get_ctr c \<Longrightarrow>
   try_leave c count cell = Some (cell = c, if cell = c then get_ptr c else cell)"
  by (simp add: try_leave_def make_word_0_get_ptr cas_strong_def)

lemma enter_spec:
  assumes "get_ptr cell \<noteq> 0 \<longrightarrow> hp (get_ptr cell) = Some h"
  shows "enter env cell hp =
     (let c1 = cell + make_word_ctr 1 in
      if 2 ^ 14 \<le> sint (get_ctr cell + 1) \<and> get_ptr cell \<noteq> 0
      then if interfere env c1 = c1 then Some (get_ptr cell, get_ptr cell, hp)
           else Some (c1, interfere env c1, hp)
      else Some (c1, c1, hp))"
proof -
  have upd: "hp(get_ptr cell \<mapsto> h) = hp" if "get_ptr cell \<noteq> 0"
    using that assms by (simp add: map_upd_triv)
  show ?thesis
    using assms
    by (auto simp add: enter_def acp_fetch_add_def counter_increment Let_def try_leave_all
          get_ptr_add_ctr get_ctr_add_ctr set_ctr_0 get_ptr_idem get_ctr_get_ptr
          on_block_def unhold_0 upd)
qed

lemma enter_ptr:
  assumes "get_ptr cell \<noteq> 0 \<longrightarrow> hp (get_ptr cell) = Some h"
    and "enter env cell hp = Some (c, cell', hp')"
  shows "get_ptr c = get_ptr cell \<and> hp' = hp"
  using assms(2) unfolding enter_spec [of cell hp h env, OF assms(1)]
  by (auto simp add: Let_def get_ptr_idem get_ptr_add_ctr split: if_splits)

text \<open>
  Claim C1. \<^verbatim>\<open>load\<close> first enters the cell: the \<^verbatim>\<open>fetch_add\<close> raises the 16-bit
  counter of the cell by one and leaves the pointer. If the pointer seen is null,
  \<^verbatim>\<open>load\<close> returns the null handle and the heap is unchanged. Otherwise, the pointer
  being the address of a live block, \<^verbatim>\<open>load\<close> adds \<open>PC 1 1\<close> to the strong counter of
  that block, changes no other block, and returns the handle \<open>(0, p)\<close>. The cell is left
  with the incremented counter, unless the increment reached the normalisation
  threshold: then it holds \<open>(0, p)\<close> if the compare-exchange of \<^verbatim>\<open>_try_leave\<close>
  succeeded, and what another thread stored if it did not.
\<close>

theorem load_spec:
  "(get_ptr cell = 0 \<longrightarrow>
      load env cell hp = Some (0, cell + make_word_ctr 1, hp))
   \<and> (get_ptr cell \<noteq> 0 \<and> hp (get_ptr cell) = Some h \<longrightarrow>
      load env cell hp =
        Some (get_ptr cell,
              (if 2 ^ 14 \<le> sint (get_ctr cell + 1)
               then if interfere env (cell + make_word_ctr 1) = cell + make_word_ctr 1
                    then get_ptr cell
                    else interfere env (cell + make_word_ctr 1)
               else cell + make_word_ctr 1),
              hp(get_ptr cell \<mapsto> h\<lparr>references := references h + PC 1 1\<rparr>))
      \<and> get_ctr (get_ptr cell) = 0 \<and> get_ptr (get_ptr cell) = get_ptr cell)
   \<and> get_ctr (cell + make_word_ctr 1) = get_ctr cell + 1
   \<and> get_ptr (cell + make_word_ctr 1) = get_ptr cell"
proof -
  have null: "load env cell hp = Some (0, cell + make_word_ctr 1, hp)" if "get_ptr cell = 0"
  proof -
    from that have "enter env cell hp = Some (cell + make_word_ctr 1, cell + make_word_ctr 1, hp)"
      by (simp add: enter_spec [of cell hp undefined] Let_def)
    with that show ?thesis
      by (simp add: load_def get_ptr_add_ctr make_word_0_0)
  qed
  have live: "load env cell hp =
        Some (get_ptr cell,
              (if 2 ^ 14 \<le> sint (get_ctr cell + 1)
               then if interfere env (cell + make_word_ctr 1) = cell + make_word_ctr 1
                    then get_ptr cell
                    else interfere env (cell + make_word_ctr 1)
               else cell + make_word_ctr 1),
              hp(get_ptr cell \<mapsto> h\<lparr>references := references h + PC 1 1\<rparr>))"
    if nz: "get_ptr cell \<noteq> 0" and h: "hp (get_ptr cell) = Some h"
  proof -
    from h have pre: "get_ptr cell \<noteq> 0 \<longrightarrow> hp (get_ptr cell) = Some h" by simp
    from nz h show ?thesis
      by (simp add: load_def enter_spec [of cell hp h env, OF pre] Let_def
            get_ptr_idem get_ptr_add_ctr on_block_def acquire_count_def apc_fetch_add_def
            make_word_0_get_ptr)
  qed
  from null live show ?thesis
    by (simp add: get_ctr_get_ptr get_ptr_idem get_ctr_add_ctr get_ptr_add_ctr)
qed

theorem load_spec_witness:
  "get_ptr 0x0005000000001000 = 0x1000
   \<and> load None 0x0005000000001000 [0x1000 \<mapsto> sptr_header_base 0x2000]
      = Some (0x1000, 0x0006000000001000,
              [0x1000 \<mapsto> \<lparr>references = PC 1 2, weak_references = 0, pointer = 0x2000\<rparr>])
   \<and> get_ptr 0x0005000000000000 = 0
   \<and> load None 0x0005000000000000 Map.empty = Some (0, 0x0006000000000000, Map.empty)"
proof -
  have p: "get_ptr 0x0005000000001000 = 0x1000" "get_ptr 0x0005000000000000 = 0"
    by code_simp+
  have c: "\<not> 2 ^ 14 \<le> sint (get_ctr 0x0005000000001000 + 1)"
    by code_simp
  have a: "0x0005000000001000 + make_word_ctr 1 = 0x0006000000001000"
     "0x0005000000000000 + make_word_ctr 1 = 0x0006000000000000"
    by code_simp+
  have s: "PC 0 1 + PC 1 1 = PC 1 2"
    by code_simp
  from load_spec [of "0x0005000000001000" None "[0x1000 \<mapsto> sptr_header_base 0x2000]"
      "sptr_header_base 0x2000"]
    load_spec [of "0x0005000000000000" None Map.empty undefined] p c a s
  show ?thesis by (simp add: sptr_header_base_def)
qed


text \<open>
  Claim C2: when \<^verbatim>\<open>_enter\<close> raises the counter of the cell to the threshold \<open>2^14\<close>
  and the strong compare-exchange that resets it succeeds, the strong counter's \<open>c1\<close>
  decreases by the amount the cell gave up. The code run on the cell \<open>(16383, 0x1000)\<close>,
  undisturbed, with the block at \<open>0x1000\<close> holding \<open>PC 16383 16384\<close>: the increment
  makes the counter 16384, the compare-exchange succeeds and the cell becomes
  \<open>(0, 0x1000)\<close>, but the strong counter still is \<open>PC 16383 16384\<close> where the claim has
  \<open>PC (16383 - 16384) 16384\<close>. \<^verbatim>\<open>set_ctr( 0 )\<close> runs before
  \<^verbatim>\<open>unhold( ctrl_ptr.get_ctr() )\<close>, so the amount passed is always 0; by
  \<open>enter_ptr\<close> above \<^verbatim>\<open>_enter\<close> never changes any block.
\<close>

theorem normalisation_failing_input:
  "map_option (\<lambda>(c, cell', hp'). (c, cell', hp' 0x1000))
     (enter None 0x3FFF000000001000
        [0x1000 \<mapsto> \<lparr>references = PC 16383 16384, weak_references = 0, pointer = 0x2000\<rparr>])
   = Some (0x1000, 0x1000,
           Some \<lparr>references = PC 16383 16384, weak_references = 0, pointer = 0x2000\<rparr>)
   \<and> get_ctr 0x3FFF000000001000 = 16383
   \<and> get_ptr 0x3FFF000000001000 = 0x1000
   \<and> PC 16383 16384 \<noteq> PC (16383 - 16384) 16384"
  by code_simp

end
